theory Spec2Isabelle
  imports Complex_Main "HOL-Library.Sublist"
begin

section \<open>Go values used by the splitters\<close>

subsection \<open>float64\<close>

text \<open>
  The scores of \<^verbatim>\<open>samurai.go\<close> are Go \<^verbatim>\<open>float64\<close> values. A finite value is
  modelled by the real number it denotes (rounding is not modelled, and the two zeros
  are one value); the three special values of IEEE 754 are kept apart, because
  division by zero and the logarithm of zero produce them instead of a panic.
\<close>

datatype float64 = NaN | NInf | Fin real | PInf

text \<open>\<^verbatim>\<open>x + y\<close> on float64.\<close>

fun fadd :: "float64 \<Rightarrow> float64 \<Rightarrow> float64" where
  "fadd NaN y = NaN"
| "fadd x NaN = NaN"
| "fadd PInf NInf = NaN"
| "fadd NInf PInf = NaN"
| "fadd PInf y = PInf"
| "fadd x PInf = PInf"
| "fadd NInf y = NInf"
| "fadd x NInf = NInf"
| "fadd (Fin a) (Fin b) = Fin (a + b)"

text \<open>
  \<^verbatim>\<open>x / y\<close> on float64: a finite non-zero value over zero is an infinity, zero over
  zero and infinity over infinity are NaN, a finite value over an infinity is zero.
\<close>

fun fdiv :: "float64 \<Rightarrow> float64 \<Rightarrow> float64" where
  "fdiv NaN y = NaN"
| "fdiv x NaN = NaN"
| "fdiv (Fin a) (Fin b) =
     (if b = 0 then (if a = 0 then NaN else if 0 < a then PInf else NInf)
      else Fin (a / b))"
| "fdiv (Fin a) PInf = Fin 0"
| "fdiv (Fin a) NInf = Fin 0"
| "fdiv PInf (Fin b) = (if b < 0 then NInf else PInf)"
| "fdiv NInf (Fin b) = (if b < 0 then PInf else NInf)"
| "fdiv PInf y = NaN"
| "fdiv NInf y = NaN"

text \<open>\<^verbatim>\<open>x > y\<close> on float64: false as soon as one side is NaN.\<close>

fun fgt :: "float64 \<Rightarrow> float64 \<Rightarrow> bool" where
  "fgt NaN y = False"
| "fgt x NaN = False"
| "fgt NInf y = False"
| "fgt x PInf = False"
| "fgt PInf y = True"
| "fgt x NInf = True"
| "fgt (Fin a) (Fin b) = (b < a)"

text \<open>\<^verbatim>\<open>math.Sqrt\<close>: NaN below zero, the identity on +Inf.\<close>

fun Sqrt :: "float64 \<Rightarrow> float64" where
  "Sqrt NaN = NaN"
| "Sqrt NInf = NaN"
| "Sqrt PInf = PInf"
| "Sqrt (Fin a) = (if a < 0 then NaN else Fin (sqrt a))"

text \<open>\<^verbatim>\<open>math.Max\<close>: +Inf wins over everything, then NaN, then the larger value.\<close>

fun Max64 :: "float64 \<Rightarrow> float64 \<Rightarrow> float64" where
  "Max64 PInf y = PInf"
| "Max64 x PInf = PInf"
| "Max64 NaN y = NaN"
| "Max64 x NaN = NaN"
| "Max64 NInf y = y"
| "Max64 x NInf = x"
| "Max64 (Fin a) (Fin b) = Fin (max a b)"

text \<open>\<^verbatim>\<open>math.Log10\<close>: -Inf at zero, NaN below zero, the identity on +Inf.\<close>

fun Log10 :: "float64 \<Rightarrow> float64" where
  "Log10 NaN = NaN"
| "Log10 NInf = NaN"
| "Log10 PInf = PInf"
| "Log10 (Fin a) = (if a < 0 then NaN else if a = 0 then NInf else Fin (log 10 a))"

subsection \<open>Strings\<close>

text \<open>
  A Go string is a sequence of bytes, here a \<^typ>\<open>string\<close>. The slice expression
  \<^verbatim>\<open>w[lo:hi]\<close> panics unless \<open>lo \<le> hi \<le> len(w)\<close>; the panic is \<^const>\<open>None\<close>.
\<close>

definition slice :: "string \<Rightarrow> nat \<Rightarrow> nat \<Rightarrow> string option" where
  "slice w lo hi = (if lo \<le> hi \<and> hi \<le> length w then Some (take (hi - lo) (drop lo w)) else None)"

text \<open>Character classes of the regular expressions, by byte value.\<close>

definition isUpper :: "char \<Rightarrow> bool" where
  "isUpper c = (65 \<le> (of_char c :: nat) \<and> (of_char c :: nat) \<le> 90)"

definition isLower :: "char \<Rightarrow> bool" where
  "isLower c = (97 \<le> (of_char c :: nat) \<and> (of_char c :: nat) \<le> 122)"

definition isDigit :: "char \<Rightarrow> bool" where
  "isDigit c = (48 \<le> (of_char c :: nat) \<and> (of_char c :: nat) \<le> 57)"

definition isLetter :: "char \<Rightarrow> bool" where
  "isLetter c = (isUpper c \<or> isLower c)"

section \<open>Samurai\<close>

subsection \<open>Frequency tables\<close>

text \<open>
  Modelled from the spec: the type \<^verbatim>\<open>FrequencyTable\<close> and its methods
  \<^verbatim>\<open>Frequency\<close> and \<^verbatim>\<open>TotalOccurrences\<close> are not part of the sources at hand.
  The specification describes a mapping from word to non-negative integer count whose
  frequency is zero for an unknown word, and a total that is tracked on its own.
  \<^verbatim>\<open>score\<close> adds the result of \<^verbatim>\<open>Frequency\<close> to a float64, and converts the total.
\<close>

record FrequencyTable =
  occurrences :: "string \<rightharpoonup> nat"
  totalOccurrences :: nat

definition Frequency :: "FrequencyTable \<Rightarrow> string \<Rightarrow> float64" where
  "Frequency ft w = (case occurrences ft w of None \<Rightarrow> Fin 0 | Some c \<Rightarrow> Fin (real c))"

definition TotalOccurrences :: "FrequencyTable \<Rightarrow> nat" where
  "TotalOccurrences ft = totalOccurrences ft"

subsection \<open>The splitter\<close>

record Samurai =
  localFreqTable :: FrequencyTable
  globalFreqTable :: FrequencyTable
  prefixes :: "string set"
  suffixes :: "string set"

definition score :: "Samurai \<Rightarrow> string \<Rightarrow> float64" where
  "score s w =
     (let freqS = Frequency (localFreqTable s) w;
          globalFreqS = Frequency (globalFreqTable s) w;
          allStrsFreqP = Fin (real (TotalOccurrences (localFreqTable s)))
      in fadd freqS (fdiv globalFreqS (Log10 allStrsFreqP)))"

definition isPrefix :: "Samurai \<Rightarrow> string \<Rightarrow> bool" where
  "isPrefix s token = (token \<in> prefixes s)"

definition isSuffix :: "Samurai \<Rightarrow> string \<Rightarrow> bool" where
  "isSuffix s token = (token \<in> suffixes s)"

text \<open>
  The three tests of one iteration of the loop of \<^verbatim>\<open>sameCaseSplit\<close>, at index \<open>i\<close>:
  \<open>left\<close> is \<^verbatim>\<open>token[0:i]\<close> and \<open>right\<close> is \<^verbatim>\<open>token[i:n]\<close>.
\<close>

definition shouldSplitLeft :: "Samurai \<Rightarrow> float64 \<Rightarrow> string \<Rightarrow> nat \<Rightarrow> bool" where
  "shouldSplitLeft s baseScore token i =
     fgt (Sqrt (score s (take i token))) (Max64 (score s token) baseScore)"

definition shouldSplitRight :: "Samurai \<Rightarrow> float64 \<Rightarrow> string \<Rightarrow> nat \<Rightarrow> bool" where
  "shouldSplitRight s baseScore token i =
     fgt (Sqrt (score s (drop i token))) (Max64 (score s token) baseScore)"

definition isPreffixOrSuffix :: "Samurai \<Rightarrow> string \<Rightarrow> nat \<Rightarrow> bool" where
  "isPreffixOrSuffix s token i = (isPrefix s (take i token) \<or> isSuffix s (drop i token))"

text \<open>
  \<^verbatim>\<open>sameCaseSplit\<close> is a loop over \<open>i = 0, ..., n - 1\<close> that carries \<open>maxScore\<close> and
  \<open>splitToken\<close> and calls \<^verbatim>\<open>sameCaseSplit\<close> on \<open>right\<close> in its second branch. The
  loop and the recursion are one function; a call that does not return is \<^const>\<open>None\<close>.
\<close>

partial_function (option) sameCaseLoop ::
  "Samurai \<Rightarrow> float64 \<Rightarrow> string \<Rightarrow> nat \<Rightarrow> float64 \<Rightarrow> string list \<Rightarrow> string list option" where
  "sameCaseLoop s baseScore token i maxScore splitToken =
     (if i < length token then
        (if \<not> isPreffixOrSuffix s token i \<and> shouldSplitLeft s baseScore token i
              \<and> shouldSplitRight s baseScore token i then
           (if fgt (fadd (score s (take i token)) (score s (drop i token))) maxScore then
              sameCaseLoop s baseScore token (i + 1)
                (fadd (score s (take i token)) (score s (drop i token)))
                [take i token, drop i token]
            else sameCaseLoop s baseScore token (i + 1) maxScore splitToken)
         else if \<not> isPreffixOrSuffix s token i \<and> shouldSplitLeft s baseScore token i then
           Option.bind (sameCaseLoop s baseScore (drop i token) 0 (Fin (- 1)) [drop i token])
             (\<lambda>temp.
                if 1 < length temp then
                  sameCaseLoop s baseScore token (i + 1) maxScore (take i token # temp)
                else sameCaseLoop s baseScore token (i + 1) maxScore splitToken)
         else sameCaseLoop s baseScore token (i + 1) maxScore splitToken)
      else Some splitToken)"

definition sameCaseSplit :: "Samurai \<Rightarrow> string \<Rightarrow> float64 \<Rightarrow> string list option" where
  "sameCaseSplit s token baseScore = sameCaseLoop s baseScore token 0 (Fin (- 1)) [token]"

subsection \<open>Boundary markers\<close>

text \<open>
  Modelled from the spec: \<^verbatim>\<open>addMarkersOnDigits\<close>, \<^verbatim>\<open>addMarkersOnLowerToUpperCase\<close>
  and \<^verbatim>\<open>splitOnMarkers\<close> are called by \<^verbatim>\<open>Split\<close> and are not part of the sources at
  hand. The specification (boundary preprocessing) inserts a separator between a digit
  and an adjacent letter and between a lower-case letter and a following upper-case
  letter, and splits a marked token into its separator-delimited hardwords, in order,
  dropping empty segments. The separator is the underscore that \<^verbatim>\<open>Split\<close> itself
  writes between words.
\<close>

definition marker :: char where
  "marker = CHR ''_''"

fun addMarkersOnDigits :: "string \<Rightarrow> string" where
  "addMarkersOnDigits (a # b # cs) =
     (if (isDigit a \<and> isLetter b) \<or> (isLetter a \<and> isDigit b)
      then a # marker # addMarkersOnDigits (b # cs)
      else a # addMarkersOnDigits (b # cs))"
| "addMarkersOnDigits cs = cs"

fun addMarkersOnLowerToUpperCase :: "string \<Rightarrow> string" where
  "addMarkersOnLowerToUpperCase (a # b # cs) =
     (if isLower a \<and> isUpper b
      then a # marker # addMarkersOnLowerToUpperCase (b # cs)
      else a # addMarkersOnLowerToUpperCase (b # cs))"
| "addMarkersOnLowerToUpperCase cs = cs"

text \<open>The segment read so far is \<open>cur\<close>; an empty segment is dropped.\<close>

fun splitFrom :: "string \<Rightarrow> string \<Rightarrow> string list" where
  "splitFrom cur [] = (if cur = [] then [] else [cur])"
| "splitFrom cur (c # cs) =
     (if c = marker then (if cur = [] then splitFrom [] cs else cur # splitFrom [] cs)
      else splitFrom (cur @ [c]) cs)"

definition splitOnMarkers :: "string \<Rightarrow> string list" where
  "splitOnMarkers token = splitFrom [] token"

subsection \<open>Split\<close>

text \<open>
  \<^verbatim>\<open>regexp.MustCompile("[A-Z][a-z]").FindStringIndex(word)\<close>: the bounds of the leftmost
  upper-case letter that is followed by a lower-case letter, or nil.
\<close>

fun FindStringIndex :: "string \<Rightarrow> (nat \<times> nat) option" where
  "FindStringIndex (a # b # cs) =
     (if isUpper a \<and> isLower b then Some (0, 2)
      else map_option (\<lambda>(i, j). (i + 1, j + 1)) (FindStringIndex (b # cs)))"
| "FindStringIndex cs = None"

text \<open>
  The body of the first loop of \<^verbatim>\<open>Split\<close> for one word: the camel-case cut. The
  result is the new value of \<open>word\<close>, or \<^const>\<open>None\<close> when a slice expression panics.
\<close>

definition camelCut :: "Samurai \<Rightarrow> string \<Rightarrow> string option" where
  "camelCut s word =
     (case FindStringIndex word of
        None \<Rightarrow> Some word
      | Some (i, j) \<Rightarrow>
          if 1 < length word then
            (let n = length word - 1 in
             Option.bind (if 0 < i then slice word i n else slice word 0 n) (\<lambda>camelWord.
             Option.bind (slice word (i + 1) n) (\<lambda>altWord.
               if fgt (score s camelWord) (Sqrt (score s altWord)) then
                 (if 0 < i then
                    Option.bind (slice word 0 (i - 1)) (\<lambda>x.
                    Option.bind (slice word i n) (\<lambda>y. Some (x @ [marker] @ y)))
                  else Some word)
               else
                 Option.bind (slice word 0 i) (\<lambda>x.
                 Option.bind (slice word (i + 1) n) (\<lambda>y. Some (x @ [marker] @ y))))))
          else Some word)"

text \<open>The first loop: \<open>processedToken = processedToken + "_" + word\<close>.\<close>

fun camelLoop :: "Samurai \<Rightarrow> string list \<Rightarrow> string \<Rightarrow> string option" where
  "camelLoop s [] processedToken = Some processedToken"
| "camelLoop s (word # ws) processedToken =
     (case camelCut s word of
        None \<Rightarrow> None
      | Some word' \<Rightarrow> camelLoop s ws (processedToken @ [marker] @ word'))"

text \<open>The second loop: \<open>splitToken = append(splitToken, sameCaseSplitting...)\<close>.\<close>

fun sameCaseAll :: "Samurai \<Rightarrow> string list \<Rightarrow> string list \<Rightarrow> string list option" where
  "sameCaseAll s [] splitToken = Some splitToken"
| "sameCaseAll s (word # ws) splitToken =
     (case sameCaseSplit s word (score s word) of
        None \<Rightarrow> None
      | Some sameCaseSplitting \<Rightarrow> sameCaseAll s ws (splitToken @ sameCaseSplitting))"

text \<open>
  \<^verbatim>\<open>Split\<close>. Its error result is always nil and is left out; \<^const>\<open>None\<close> is a call
  that yields no value (a panic in a slice expression, or a recursion without end).
\<close>

definition Split :: "Samurai \<Rightarrow> string \<Rightarrow> string list option" where
  "Split s token =
     (let preprocessedToken = addMarkersOnLowerToUpperCase (addMarkersOnDigits token) in
      case camelLoop s (splitOnMarkers preprocessedToken) [] of
        None \<Rightarrow> None
      | Some processedToken \<Rightarrow> sameCaseAll s (splitOnMarkers preprocessedToken) [])"

section \<open>GenTest\<close>

text \<open>
  Modelled from the spec: the GenTest splitter (\<^verbatim>\<open>generatePotentialSplits\<close>,
  \<^verbatim>\<open>findExpansions\<close>, \<^verbatim>\<open>findBestSplit\<close>, \<^verbatim>\<open>newPotentialSplit\<close> and the
  \<^verbatim>\<open>highestCohesion\<close> methods) is present only through its tests; the definitions of
  this section follow the split-candidate model and the GenTest component of the
  specification, and the values of the tests. A cohesion is a real number there.
\<close>

record expansion =
  translation :: string
  cohesion :: real

record softword =
  word :: string
  expansions :: "expansion list"

record potentialSplit =
  split :: string
  softwords :: "softword list"









text \<open>
  Modelled from the spec: the highest cohesion of a softword is the maximum over its
  expansions, zero without expansions; that of a split is the sum over its softwords.
\<close>

fun maxCohesion :: "real \<Rightarrow> expansion list \<Rightarrow> real" where
  "maxCohesion m [] = m"
| "maxCohesion m (e # es) = maxCohesion (if m < cohesion e then cohesion e else m) es"

definition softwordHighestCohesion :: "softword \<Rightarrow> real" where
  "softwordHighestCohesion sw =
     (case expansions sw of [] \<Rightarrow> 0 | e # es \<Rightarrow> maxCohesion (cohesion e) es)"

definition highestCohesion :: "potentialSplit \<Rightarrow> real" where
  "highestCohesion ps = sum_list (map softwordHighestCohesion (softwords ps))"

text \<open>
  Modelled from the spec: the candidate of maximal highest cohesion, the first one
  met on a tie, and the zero value for no candidate.
\<close>

fun bestFrom :: "potentialSplit \<Rightarrow> potentialSplit list \<Rightarrow> potentialSplit" where
  "bestFrom best [] = best"
| "bestFrom best (c # cs) =
     bestFrom (if highestCohesion best < highestCohesion c then c else best) cs"

definition findBestSplit :: "potentialSplit list \<Rightarrow> potentialSplit" where
  "findBestSplit potentialSplits =
     (case potentialSplits of
        [] \<Rightarrow> \<lparr>split = [], softwords = []\<rparr>
      | c # cs \<Rightarrow> bestFrom c cs)"

section \<open>The Basic expander\<close>

text \<open>
  A Go map from strings: a key is absent or bound. A value of type \<^verbatim>\<open>interface{}\<close> is
  nil (\<^const>\<open>None\<close>) or holds something; reading a map at an absent key gives the zero
  value of the value type, nil for an interface and the empty string for a string.
\<close>

record 'v Basic =
  srcWords :: "string \<rightharpoonup> 'v option"
  srcPhrases :: "string \<rightharpoonup> string"
  stopList :: "string \<rightharpoonup> 'v option"
  dicctionary :: "string \<rightharpoonup> 'v option"

definition indexIface :: "(string \<rightharpoonup> 'v option) \<Rightarrow> string \<Rightarrow> 'v option" where
  "indexIface m k = (case m k of None \<Rightarrow> None | Some v \<Rightarrow> v)"

definition indexString :: "(string \<rightharpoonup> string) \<Rightarrow> string \<Rightarrow> string" where
  "indexString m k = (case m k of None \<Rightarrow> [] | Some v \<Rightarrow> v)"

text \<open>
  \<^verbatim>\<open>strings.ToLower\<close> on the letters \<open>A\<close> to \<open>Z\<close>; the case mapping of Unicode beyond
  ASCII is not modelled, such bytes are kept.
\<close>

definition toLowerChar :: "char \<Rightarrow> char" where
  "toLowerChar c = (if isUpper c then char_of ((of_char c :: nat) + 32) else c)"

definition ToLower :: "string \<Rightarrow> string" where
  "ToLower token = map toLowerChar token"

text \<open>
  \<^verbatim>\<open>strings.Split(s, sep)\<close> for a separator of one byte: the pieces between the
  separators, empty pieces included, one more than there are separators.
\<close>

fun splitAt :: "char \<Rightarrow> string \<Rightarrow> string \<Rightarrow> string list" where
  "splitAt sep cur [] = [cur]"
| "splitAt sep cur (c # cs) =
     (if c = sep then cur # splitAt sep [] cs else splitAt sep (cur @ [c]) cs)"

definition stringsSplit :: "string \<Rightarrow> char \<Rightarrow> string list" where
  "stringsSplit s sep = splitAt sep [] s"

text \<open>
  \<^verbatim>\<open>Expand\<close> returns a slice and an error: the slice is nil (\<^const>\<open>None\<close>) or a list, the
  error is nil (\<^const>\<open>None\<close>) or a message.
\<close>

definition Expand :: "'v Basic \<Rightarrow> string \<Rightarrow> string list option \<times> string option" where
  "Expand b token0 =
     (let token = ToLower token0 in
      if indexIface (stopList b) token \<noteq> None then (Some [token], None)
      else if indexString (srcPhrases b) token \<noteq> [] then
        (Some (stringsSplit (indexString (srcPhrases b) token) (CHR ''-'')), None)
      else if indexIface (srcWords b) token \<noteq> None then (Some [token], None)
      else (None, None))"

section \<open>Concrete splitters used by the closed theorems\<close>

text \<open>Whether a call returned a non-empty list of pieces that concatenate to \<open>token\<close>.\<close>

definition returnsSplit :: "string list option \<Rightarrow> string \<Rightarrow> bool" where
  "returnsSplit r token = (case r of None \<Rightarrow> False | Some ws \<Rightarrow> ws \<noteq> [] \<and> concat ws = token)"

definition emptyTable :: FrequencyTable where
  "emptyTable = \<lparr>occurrences = Map.empty, totalOccurrences = 0\<rparr>"

text \<open>No word was ever counted, no affix is listed.\<close>

definition samuraiBlank :: Samurai where
  "samuraiBlank = \<lparr>localFreqTable = emptyTable, globalFreqTable = emptyTable,
     prefixes = {}, suffixes = {}\<rparr>"

text \<open>Local counts for the pieces of \<open>abcd\<close>; the global table is empty.\<close>

definition tableAbcd :: FrequencyTable where
  "tableAbcd = \<lparr>occurrences = [''a'' \<mapsto> 4, ''bcd'' \<mapsto> 4, ''ab'' \<mapsto> 4, ''c'' \<mapsto> 4,
     ''d'' \<mapsto> 4, ''abcd'' \<mapsto> 1], totalOccurrences = 100\<rparr>"

definition samuraiAbcd :: Samurai where
  "samuraiAbcd = \<lparr>localFreqTable = tableAbcd, globalFreqTable = emptyTable,
     prefixes = {}, suffixes = {}\<rparr>"

text \<open>A local table that counts the empty string, and a global table that counts \<open>b\<close>.\<close>

definition tableEmptyWord :: FrequencyTable where
  "tableEmptyWord = \<lparr>occurrences = [[] \<mapsto> 4], totalOccurrences = 100\<rparr>"

definition tableB :: FrequencyTable where
  "tableB = \<lparr>occurrences = [''b'' \<mapsto> 1], totalOccurrences = 0\<rparr>"

definition samuraiEmptyWord :: Samurai where
  "samuraiEmptyWord = \<lparr>localFreqTable = tableEmptyWord, globalFreqTable = tableB,
     prefixes = {}, suffixes = {}\<rparr>"

text \<open>A local table whose total is 1, and a global table that counts \<open>a\<close>.\<close>

definition tableTotalOne :: FrequencyTable where
  "tableTotalOne = \<lparr>occurrences = [''a'' \<mapsto> 1], totalOccurrences = 1\<rparr>"

definition tableA :: FrequencyTable where
  "tableA = \<lparr>occurrences = [''a'' \<mapsto> 3], totalOccurrences = 0\<rparr>"

definition samuraiTotalOne :: Samurai where
  "samuraiTotalOne = \<lparr>localFreqTable = tableTotalOne, globalFreqTable = tableA,
     prefixes = {}, suffixes = {}\<rparr>"

definition samuraiTotalZero :: Samurai where
  "samuraiTotalZero = \<lparr>localFreqTable = \<lparr>occurrences = [''a'' \<mapsto> 2], totalOccurrences = 0\<rparr>,
     globalFreqTable = tableA, prefixes = {}, suffixes = {}\<rparr>"

text \<open>The count a table holds for a word, zero when the word is unknown.\<close>

definition occurrencesOf :: "FrequencyTable \<Rightarrow> string \<Rightarrow> nat" where
  "occurrencesOf ft w = (case occurrences ft w of None \<Rightarrow> 0 | Some c \<Rightarrow> c)"

section \<open>Concrete values of the tests of GenTest and of the Basic expander\<close>


definition bestSplit :: potentialSplit where
  "bestSplit = \<lparr>split = ''str_len'', softwords =
     [\<lparr>word = ''str'', expansions = [\<lparr>translation = ''string'', cohesion = 23432 / 10000\<rparr>]\<rparr>,
      \<lparr>word = ''len'', expansions = [\<lparr>translation = ''length'', cohesion = 20011 / 10000\<rparr>]\<rparr>]\<rparr>"

definition notSoBadSplit :: potentialSplit where
  "notSoBadSplit = \<lparr>split = ''st_rlen'', softwords =
     [\<lparr>word = ''st'', expansions = [\<lparr>translation = ''string'', cohesion = 19432 / 10000\<rparr>]\<rparr>,
      \<lparr>word = ''rlen'', expansions = [\<lparr>translation = ''riflemen'', cohesion = 9011 / 10000\<rparr>]\<rparr>]\<rparr>"

definition badSplit :: potentialSplit where
  "badSplit = \<lparr>split = ''s_trlen'', softwords =
     [\<lparr>word = ''s'', expansions = []\<rparr>, \<lparr>word = ''trlen'', expansions = []\<rparr>]\<rparr>"

text \<open>An expander that knows \<open>db\<close> both as a word and as the phrase \<open>data-base\<close>, the
  word \<open>id\<close>, and the stop word \<open>the\<close>.\<close>

definition basicDb :: "unit Basic" where
  "basicDb = \<lparr>srcWords = [''db'' \<mapsto> Some (), ''id'' \<mapsto> Some ()], srcPhrases = [''db'' \<mapsto> ''data-base''],
     stopList = [''the'' \<mapsto> Some ()], dicctionary = Map.empty\<rparr>"

section \<open>Samurai: the score and the loop of sameCaseSplit\<close>

subsection \<open>One iteration of the loop\<close>

lemma loop_done: "\<not> i < length token \<Longrightarrow> sameCaseLoop s b token i ms st = Some st"
  by (subst sameCaseLoop.simps) simp

lemma loop_both:
  "i < length token \<Longrightarrow> \<not> isPreffixOrSuffix s token i \<Longrightarrow> shouldSplitLeft s b token i \<Longrightarrow>
   shouldSplitRight s b token i \<Longrightarrow>
   sameCaseLoop s b token i ms st =
     (if fgt (fadd (score s (take i token)) (score s (drop i token))) ms then
        sameCaseLoop s b token (i + 1) (fadd (score s (take i token)) (score s (drop i token)))
          [take i token, drop i token]
      else sameCaseLoop s b token (i + 1) ms st)"
  by (subst sameCaseLoop.simps) simp

lemma loop_left:
  "i < length token \<Longrightarrow> \<not> isPreffixOrSuffix s token i \<Longrightarrow> shouldSplitLeft s b token i \<Longrightarrow>
   \<not> shouldSplitRight s b token i \<Longrightarrow>
   sameCaseLoop s b token i ms st =
     (case sameCaseLoop s b (drop i token) 0 (Fin (- 1)) [drop i token] of
        None \<Rightarrow> None
      | Some temp \<Rightarrow>
          if 1 < length temp then sameCaseLoop s b token (i + 1) ms (take i token # temp)
          else sameCaseLoop s b token (i + 1) ms st)"
  by (subst sameCaseLoop.simps) (simp split: option.splits)

lemma loop_skip:
  "i < length token \<Longrightarrow> isPreffixOrSuffix s token i \<or> \<not> shouldSplitLeft s b token i \<Longrightarrow>
   sameCaseLoop s b token i ms st = sameCaseLoop s b token (i + 1) ms st"
  by (subst sameCaseLoop.simps) auto

subsection \<open>The range of the score\<close>

lemma Frequency_cases: "\<exists>x\<ge>0. Frequency ft w = Fin x"
  by (simp add: Frequency_def split: option.splits)

lemma score_range: "score s w = NaN \<or> score s w = PInf \<or> (\<exists>x\<ge>0. score s w = Fin x)"
proof -
  obtain f where f: "0 \<le> f" "Frequency (localFreqTable s) w = Fin f"
    using Frequency_cases by blast
  obtain g where g: "0 \<le> g" "Frequency (globalFreqTable s) w = Fin g"
    using Frequency_cases by blast
  define t where "t = TotalOccurrences (localFreqTable s)"
  have sc: "score s w = fadd (Fin f) (fdiv (Fin g) (Log10 (Fin (real t))))"
    by (simp add: score_def f g t_def)
  consider "t = 0" | "t = 1" | "2 \<le> t" by linarith
  then show ?thesis
  proof cases
    case 1 then show ?thesis using sc f by simp
  next
    case 2 then show ?thesis using sc f g by simp
  next
    case 3
    then have "0 < log 10 (real t)" by simp
    then show ?thesis using sc f g 3 by simp
  qed
qed

lemma score_empty:
  assumes "Frequency (localFreqTable s) [] = Fin 0" "Frequency (globalFreqTable s) [] = Fin 0"
  shows "score s [] = NaN \<or> score s [] = Fin 0"
proof -
  define t where "t = TotalOccurrences (localFreqTable s)"
  have sc: "score s [] = fadd (Fin 0) (fdiv (Fin 0) (Log10 (Fin (real t))))"
    by (simp add: score_def assms t_def)
  show ?thesis unfolding sc by simp
qed

lemma not_fgt_zero_Max64:
  assumes "x = NaN \<or> x = PInf \<or> (\<exists>r\<ge>0. x = Fin r)"
  shows "\<not> fgt (Fin 0) (Max64 x b)"
  using assms by (cases b) auto

lemma no_left_at_zero:
  assumes "Frequency (localFreqTable s) [] = Fin 0" "Frequency (globalFreqTable s) [] = Fin 0"
  shows "\<not> shouldSplitLeft s b token 0"
proof -
  have "Sqrt (score s []) = NaN \<or> Sqrt (score s []) = Fin 0"
    using score_empty[OF assms] by auto
  then show ?thesis
    using not_fgt_zero_Max64[OF score_range, of s token b]
    by (auto simp: shouldSplitLeft_def)
qed

subsection \<open>The loop returns, and its pieces concatenate to the token\<close>

lemma returnsSplit_Some [simp]: "returnsSplit (Some ws) token = (ws \<noteq> [] \<and> concat ws = token)"
  by (simp add: returnsSplit_def)

lemma returnsSplit_E: "returnsSplit r token \<Longrightarrow> \<exists>ws. r = Some ws \<and> ws \<noteq> [] \<and> concat ws = token"
  by (cases r) (simp_all add: returnsSplit_def)

lemma loop_returns:
  assumes H: "\<And>b token. \<not> shouldSplitLeft s b token 0"
  shows "st \<noteq> [] \<Longrightarrow> concat st = token \<Longrightarrow> returnsSplit (sameCaseLoop s b token i ms st) token"
proof (induction "length token" arbitrary: token i ms st rule: less_induct)
  case less
  note outer = less.hyps
  from less.prems show ?case
  proof (induction "length token - i" arbitrary: i ms st rule: less_induct)
    case inner: less
    show ?case
    proof (cases "i < length token")
      case False
      then show ?thesis using inner.prems by (simp add: loop_done)
    next
      case True
      have next_ok: "\<And>ms' st'. st' \<noteq> [] \<Longrightarrow> concat st' = token \<Longrightarrow>
          returnsSplit (sameCaseLoop s b token (i + 1) ms' st') token"
        using inner.hyps[of "i + 1"] True by simp
      consider
        (both) "\<not> isPreffixOrSuffix s token i" "shouldSplitLeft s b token i" "shouldSplitRight s b token i"
      | (left) "\<not> isPreffixOrSuffix s token i" "shouldSplitLeft s b token i" "\<not> shouldSplitRight s b token i"
      | (skip) "isPreffixOrSuffix s token i \<or> \<not> shouldSplitLeft s b token i"
        by blast
      then show ?thesis
      proof cases
        case both
        show ?thesis
          using next_ok inner.prems by (simp add: loop_both[OF True both])
      next
        case skip
        show ?thesis
          using next_ok inner.prems by (simp add: loop_skip[OF True skip])
      next
        case left
        have "i \<noteq> 0" using left(2) H by (cases i) auto
        then have shorter: "length (drop i token) < length token" using True by simp
        have "returnsSplit (sameCaseLoop s b (drop i token) 0 (Fin (- 1)) [drop i token]) (drop i token)"
          using outer[OF shorter] by simp
        then obtain temp where temp:
          "sameCaseLoop s b (drop i token) 0 (Fin (- 1)) [drop i token] = Some temp"
          "concat temp = drop i token"
          using returnsSplit_E by blast
        show ?thesis
          using next_ok inner.prems temp by (simp add: loop_left[OF True left])
      qed
    qed
  qed
qed

lemma sameCaseSplit_returns:
  assumes "Frequency (localFreqTable s) [] = Fin 0" "Frequency (globalFreqTable s) [] = Fin 0"
  shows "\<exists>ps. sameCaseSplit s token b = Some ps \<and> ps \<noteq> [] \<and> concat ps = token"
proof -
  have "returnsSplit (sameCaseLoop s b token 0 (Fin (- 1)) [token]) token"
    by (rule loop_returns) (simp_all add: no_left_at_zero[OF assms])
  then show ?thesis unfolding sameCaseSplit_def by (rule returnsSplit_E)
qed

lemma sameCaseAll_returns:
  assumes "Frequency (localFreqTable s) [] = Fin 0" "Frequency (globalFreqTable s) [] = Fin 0"
  shows "\<exists>r. sameCaseAll s ws acc = Some r \<and> concat r = concat acc @ concat ws"
proof (induction ws arbitrary: acc)
  case Nil
  then show ?case by simp
next
  case (Cons w ws)
  obtain ps where ps: "sameCaseSplit s w (score s w) = Some ps" "concat ps = w"
    using sameCaseSplit_returns[OF assms] by blast
  show ?case using Cons[of "acc @ ps"] ps by auto
qed

subsection \<open>Hardwords\<close>

lemma marker_class: "\<not> isDigit marker" "\<not> isUpper marker" "\<not> isLower marker" "\<not> isLetter marker"
  by (simp_all add: marker_def isDigit_def isUpper_def isLower_def isLetter_def)

lemma filter_addMarkersOnDigits:
  "filter (\<lambda>c. c \<noteq> marker) (addMarkersOnDigits t) = filter (\<lambda>c. c \<noteq> marker) t"
  by (induction t rule: addMarkersOnDigits.induct) (auto simp: marker_class)

lemma filter_addMarkersOnLowerToUpperCase:
  "filter (\<lambda>c. c \<noteq> marker) (addMarkersOnLowerToUpperCase t) = filter (\<lambda>c. c \<noteq> marker) t"
  by (induction t rule: addMarkersOnLowerToUpperCase.induct) (auto simp: marker_class)

lemma concat_splitFrom:
  "marker \<notin> set cur \<Longrightarrow> concat (splitFrom cur cs) = cur @ filter (\<lambda>c. c \<noteq> marker) cs"
  by (induction cur cs rule: splitFrom.induct) auto

lemma concat_hardwords:
  "concat (splitOnMarkers (addMarkersOnLowerToUpperCase (addMarkersOnDigits token)))
     = filter (\<lambda>c. c \<noteq> marker) token"
  by (simp add: splitOnMarkers_def concat_splitFrom filter_addMarkersOnLowerToUpperCase
      filter_addMarkersOnDigits)

subsection \<open>The camel-case loop of Split\<close>

lemma FindStringIndex_bounds:
  "FindStringIndex w = Some (i, j) \<Longrightarrow> j = i + 2 \<and> j \<le> length w"
  by (induction w arbitrary: i j rule: FindStringIndex.induct) (auto split: if_splits)

lemma camelCut_returns: "\<exists>w'. camelCut s hw = Some w'"
proof (cases "FindStringIndex hw")
  case None
  then show ?thesis by (simp add: camelCut_def)
next
  case (Some p)
  obtain i j where p: "p = (i, j)" by (cases p)
  have b: "i + 2 \<le> length hw" using FindStringIndex_bounds Some p by fastforce
  then have s1: "slice hw i (length hw - 1) \<noteq> None" "slice hw 0 (length hw - 1) \<noteq> None"
    "slice hw (i + 1) (length hw - 1) \<noteq> None" "slice hw 0 (i - 1) \<noteq> None"
    "slice hw 0 i \<noteq> None"
    by (simp_all add: slice_def)
  then show ?thesis
    using Some p by (auto simp: camelCut_def Let_def split: option.splits Option.bind_splits)
qed

lemma camelLoop_returns: "\<exists>p. camelLoop s ws processed = Some p"
proof (induction ws arbitrary: processed)
  case Nil
  then show ?case by simp
next
  case (Cons w ws)
  obtain w' where "camelCut s w = Some w'" using camelCut_returns by blast
  then show ?case using Cons by simp
qed

lemma sameCaseAll_those:
  "sameCaseAll s ws acc =
     map_option (\<lambda>rs. acc @ concat rs) (those (map (\<lambda>w. sameCaseSplit s w (score s w)) ws))"
  by (induction ws arbitrary: acc) (auto split: option.splits simp: option.map_comp comp_def)

lemma Split_sameCaseAll:
  "Split s token =
     sameCaseAll s (splitOnMarkers (addMarkersOnLowerToUpperCase (addMarkersOnDigits token))) []"
proof -
  obtain p where "camelLoop s (splitOnMarkers (addMarkersOnLowerToUpperCase (addMarkersOnDigits token))) [] = Some p"
    using camelLoop_returns by blast
  then show ?thesis by (simp add: Split_def)
qed

subsection \<open>Evaluation on the concrete splitters\<close>

lemma log100: "log 10 100 = 2"
proof -
  have "log 10 (10 ^ 2) = 2" by (subst log_nat_power) simp_all
  then show ?thesis by simp
qed

lemma score_Abcd: "score samuraiAbcd w = Frequency tableAbcd w"
  by (simp add: score_def samuraiAbcd_def emptyTable_def Frequency_def TotalOccurrences_def
      tableAbcd_def log100 split: option.splits)

lemmas evalAbcd = score_Abcd Frequency_def tableAbcd_def isPreffixOrSuffix_def isPrefix_def
  isSuffix_def shouldSplitLeft_def shouldSplitRight_def

lemma affix_Abcd: "prefixes samuraiAbcd = {}" "suffixes samuraiAbcd = {}"
  by (simp_all add: samuraiAbcd_def)

lemma cd_Abcd: "sameCaseLoop samuraiAbcd (Fin 1) ''cd'' 0 (Fin (- 1)) [''cd''] = Some [''c'', ''d'']"
  apply (subst loop_skip, simp, simp add: evalAbcd affix_Abcd)
  apply (subst loop_both, simp, simp add: evalAbcd affix_Abcd, simp add: evalAbcd, simp add: evalAbcd)
  apply (simp add: evalAbcd)
  apply (subst loop_done, simp)
  apply simp
  done

lemma abcd_Abcd: "sameCaseLoop samuraiAbcd (Fin 1) ''abcd'' 0 (Fin (- 1)) [''abcd''] = Some [''ab'', ''c'', ''d'']"
  apply (subst loop_skip, simp, simp add: evalAbcd affix_Abcd)
  apply (subst loop_both, simp, simp add: evalAbcd affix_Abcd, simp add: evalAbcd, simp add: evalAbcd)
  apply (simp add: evalAbcd)
  apply (subst loop_left, simp, simp add: evalAbcd affix_Abcd, simp add: evalAbcd, simp add: evalAbcd)
  apply (simp add: cd_Abcd)
  apply (subst loop_skip, simp, simp add: evalAbcd affix_Abcd)
  apply (subst loop_done, simp)
  apply simp
  done

lemma score_EmptyWord:
  "score samuraiEmptyWord [] = Fin 4" "score samuraiEmptyWord ''b'' = Fin (1 / 2)"
  "score samuraiEmptyWord ''c'' = Fin 0"
  by (simp_all add: score_def samuraiEmptyWord_def tableEmptyWord_def tableB_def Frequency_def
      TotalOccurrences_def log100)

lemma affix_EmptyWord: "prefixes samuraiEmptyWord = {}" "suffixes samuraiEmptyWord = {}"
  by (simp_all add: samuraiEmptyWord_def)

lemma half_less_sqrt_half: "(1 / 2 :: real) < sqrt (1 / 2)"
  by (rule real_less_rsqrt) (simp add: power2_eq_square)

lemma one_less_sqrt_half_twice: "1 < sqrt (1 / 2) * 2"
  using half_less_sqrt_half by simp

lemmas evalEmptyWord = one_less_sqrt_half_twice score_EmptyWord isPreffixOrSuffix_def isPrefix_def isSuffix_def
  shouldSplitLeft_def shouldSplitRight_def affix_EmptyWord half_less_sqrt_half

lemma b_EmptyWord: "sameCaseSplit samuraiEmptyWord ''b'' (Fin 0) = Some [[], ''b'']"
  unfolding sameCaseSplit_def
  apply (subst loop_both, simp, simp add: evalEmptyWord, simp add: evalEmptyWord, simp add: evalEmptyWord)
  apply (simp add: evalEmptyWord)
  apply (subst loop_done, simp)
  apply simp
  done

lemma c_never_returns:
  assumes r: "sameCaseLoop s b token i ms st = Some y"
  shows "\<not> (s = samuraiEmptyWord \<and> b = Fin 0 \<and> token = ''c'' \<and> i = 0)"
proof (rule sameCaseLoop.raw_induct[where P = "\<lambda>s b token i ms st y.
      \<not> (s = samuraiEmptyWord \<and> b = Fin 0 \<and> token = ''c'' \<and> i = 0)", OF _ r])
  fix f :: "Samurai \<Rightarrow> float64 \<Rightarrow> string \<Rightarrow> nat \<Rightarrow> float64 \<Rightarrow> string list \<Rightarrow> string list option"
  fix s b token i ms st sa
  assume IH: "\<And>b token i ms st s y. f b token i ms st s = Some y \<Longrightarrow>
     \<not> (b = samuraiEmptyWord \<and> token = Fin 0 \<and> i = ''c'' \<and> ms = 0)"
  assume eq: "(if i < length token
      then if \<not> isPreffixOrSuffix s token i \<and> shouldSplitLeft s b token i \<and> shouldSplitRight s b token i
           then if fgt (fadd (score s (take i token)) (score s (drop i token))) ms
                then f s b token (i + 1) (fadd (score s (take i token)) (score s (drop i token)))
                      [take i token, drop i token]
                else f s b token (i + 1) ms st
           else if \<not> isPreffixOrSuffix s token i \<and> shouldSplitLeft s b token i
                then Option.bind (f s b (drop i token) 0 (Fin (- 1)) [drop i token])
                      (\<lambda>temp. if 1 < length temp then f s b token (i + 1) ms (take i token # temp)
                          else f s b token (i + 1) ms st)
                else f s b token (i + 1) ms st
      else Some st) = Some sa"
  show "\<not> (s = samuraiEmptyWord \<and> b = Fin 0 \<and> token = ''c'' \<and> i = 0)"
  proof
    assume t: "s = samuraiEmptyWord \<and> b = Fin 0 \<and> token = ''c'' \<and> i = 0"
    with eq obtain temp where "f samuraiEmptyWord (Fin 0) ''c'' 0 (Fin (- 1)) [''c''] = Some temp"
      by (auto simp: evalEmptyWord bind_eq_Some_conv)
    from IH[OF this] show False by simp
  qed
qed

lemma c_EmptyWord: "sameCaseSplit samuraiEmptyWord ''c'' (Fin 0) = None"
proof (cases "sameCaseSplit samuraiEmptyWord ''c'' (Fin 0)")
  case None
  then show ?thesis .
next
  case (Some y)
  then show ?thesis using c_never_returns[of samuraiEmptyWord "Fin 0" "''c''" 0] 
    by (simp add: sameCaseSplit_def)
qed

section \<open>Samurai: the claims\<close>

text \<open>
  C1 (amended). For every token, and for frequency tables in which the empty string has
  no occurrences, \<^verbatim>\<open>Split\<close> returns, and the strings it returns concatenate to the token
  without its underscores (the separators are hard delimiters and are dropped, so the
  result is the token itself when it holds no underscore); and \<^verbatim>\<open>sameCaseSplit\<close>
  returns a non-empty list of pieces that concatenate to its input token.
\<close>

theorem Split_reconstruction:
  assumes "Frequency (localFreqTable s) [] = Fin 0" "Frequency (globalFreqTable s) [] = Fin 0"
  shows "(\<exists>ws. Split s token = Some ws \<and> concat ws = filter (\<lambda>c. c \<noteq> CHR ''_'') token)
       \<and> (\<exists>ps. sameCaseSplit s token baseScore = Some ps \<and> ps \<noteq> [] \<and> concat ps = token)"
proof -
  let ?hw = "splitOnMarkers (addMarkersOnLowerToUpperCase (addMarkersOnDigits token))"
  obtain r where r: "sameCaseAll s ?hw [] = Some r" "concat r = concat [] @ concat ?hw"
    using sameCaseAll_returns[OF assms] by blast
  have "Split s token = Some r" using r by (simp add: Split_sameCaseAll)
  moreover have "concat r = filter (\<lambda>c. c \<noteq> CHR ''_'') token"
    using r(2) concat_hardwords[of token] by (simp add: marker_def)
  ultimately show ?thesis using sameCaseSplit_returns[OF assms] by blast
qed

theorem Split_reconstruction_witness:
  "Frequency (localFreqTable samuraiAbcd) [] = Fin 0
   \<and> Frequency (globalFreqTable samuraiAbcd) [] = Fin 0
   \<and> (\<exists>ws. Split samuraiAbcd ''abcd'' = Some ws \<and> concat ws = ''abcd'')
   \<and> (\<exists>ps. sameCaseSplit samuraiAbcd ''abcd'' (Fin 1) = Some ps \<and> ps \<noteq> [] \<and> concat ps = ''abcd'')"
proof -
  have h: "Frequency (localFreqTable samuraiAbcd) [] = Fin 0"
    "Frequency (globalFreqTable samuraiAbcd) [] = Fin 0"
    by (simp_all add: Frequency_def samuraiAbcd_def tableAbcd_def emptyTable_def)
  show ?thesis
    using h Split_reconstruction[OF h, of "''abcd''" "Fin 1"] by simp
qed

text \<open>
  C1 as stated fails on a token that holds an underscore: the pieces of \<open>a_b\<close> are
  \<open>a\<close> and \<open>b\<close>, which concatenate to \<open>ab\<close>.
\<close>

theorem Split_reconstruction_counterexample:
  "Split samuraiBlank ''a_b'' = Some [''a'', ''b''] \<and> concat [''a'', ''b''] \<noteq> ''a_b''"
proof -
  have sc: "\<And>w. score samuraiBlank w = Fin 0"
    by (simp add: score_def samuraiBlank_def emptyTable_def Frequency_def TotalOccurrences_def)
  have one: "\<And>c. sameCaseSplit samuraiBlank [c] (Fin 0) = Some [[c]]"
    unfolding sameCaseSplit_def
    by (subst loop_skip) (simp_all add: shouldSplitLeft_def sc loop_done)
  have hw: "splitOnMarkers (addMarkersOnLowerToUpperCase (addMarkersOnDigits ''a_b'')) = [''a'', ''b'']"
    by (simp add: splitOnMarkers_def marker_def isDigit_def isLetter_def isUpper_def isLower_def)
  show ?thesis
    unfolding Split_sameCaseAll hw by (simp add: sc one)
qed

text \<open>
  C2. The value of \<^verbatim>\<open>Split\<close> is the concatenation, over the hardwords of the marked
  token in order, of \<^verbatim>\<open>sameCaseSplit(hardword, score(hardword))\<close>; the camel-case cut
  that the first loop computes, and every slice expression in it, leaves it unchanged.
\<close>

theorem Split_ignores_camel_cut:
  "Split s token =
     map_option concat (those (map (\<lambda>word. sameCaseSplit s word (score s word))
       (splitOnMarkers (addMarkersOnLowerToUpperCase (addMarkersOnDigits token)))))"
  by (simp add: Split_sameCaseAll sameCaseAll_those)

text \<open>
  C3 (the code differs). The loop of \<^verbatim>\<open>sameCaseSplit\<close> starts at \<open>i = 0\<close>, where
  \<open>left\<close> is the empty string. With a local table that counts the empty string, the cut
  at index 0 is taken: the token \<open>b\<close> is split into the empty string and \<open>b\<close>; and for
  the token \<open>c\<close>, where only the left test holds at index 0, the call recurses on the
  whole token with the same arguments and never returns.
\<close>

theorem sameCaseSplit_cuts_at_index_zero:
  "take 0 ''b'' = [] \<and> shouldSplitLeft samuraiEmptyWord (Fin 0) ''b'' 0
   \<and> shouldSplitRight samuraiEmptyWord (Fin 0) ''b'' 0
   \<and> sameCaseSplit samuraiEmptyWord ''b'' (Fin 0) = Some [[], ''b'']
   \<and> sameCaseSplit samuraiEmptyWord ''c'' (Fin 0) = None"
  by (simp add: b_EmptyWord c_EmptyWord evalEmptyWord)

text \<open>
  C4 (amended). \<^verbatim>\<open>score\<close> has no guard on the total. When the total of the local
  table is 1, the logarithm is zero and the score is NaN for a word without global
  occurrences and +Inf otherwise; when the total is 0, the logarithm is -Inf, the
  quotient is zero and the score is the local frequency of the word.
\<close>

theorem score_edge_totals:
  "(TotalOccurrences (localFreqTable s) = 1 \<longrightarrow>
      score s w = (if occurrencesOf (globalFreqTable s) w = 0 then NaN else PInf))
   \<and> (TotalOccurrences (localFreqTable s) = 0 \<longrightarrow>
      score s w = Fin (real (occurrencesOf (localFreqTable s) w)))"
  by (simp add: score_def Frequency_def occurrencesOf_def split: option.splits)

theorem score_edge_totals_witness:
  "TotalOccurrences (localFreqTable samuraiTotalOne) = 1
   \<and> score samuraiTotalOne ''a'' = PInf
   \<and> TotalOccurrences (localFreqTable samuraiTotalZero) = 0
   \<and> score samuraiTotalZero ''a'' = Fin 2"
  using score_edge_totals[of samuraiTotalOne "''a''"] score_edge_totals[of samuraiTotalZero "''a''"]
  by (simp add: samuraiTotalOne_def samuraiTotalZero_def tableTotalOne_def tableA_def
      TotalOccurrences_def occurrencesOf_def)

text \<open>
  C4 as stated fails: with a total of 1 the result is not one constant, and it is not
  finite. The score of \<open>a\<close> (three global occurrences) is +Inf, the score of \<open>b\<close>
  (none) is NaN.
\<close>

theorem score_edge_totals_counterexample:
  "score samuraiTotalOne ''a'' = PInf \<and> score samuraiTotalOne ''b'' = NaN"
  by (simp add: score_def samuraiTotalOne_def tableTotalOne_def tableA_def Frequency_def
      TotalOccurrences_def)

text \<open>
  C5. \<^verbatim>\<open>score(word)\<close> is the local frequency plus the global frequency over
  \<open>log10\<close> of the total of the local table, computed on float64; for a total of at
  least 2 this is the real number \<open>local + global / log10(total)\<close>. Both frequencies
  are zero for a word that the table does not hold.
\<close>

theorem score_formula:
  "score s w =
     fadd (Fin (real (occurrencesOf (localFreqTable s) w)))
       (fdiv (Fin (real (occurrencesOf (globalFreqTable s) w)))
         (Log10 (Fin (real (TotalOccurrences (localFreqTable s))))))
   \<and> (2 \<le> TotalOccurrences (localFreqTable s) \<longrightarrow>
        score s w = Fin (real (occurrencesOf (localFreqTable s) w)
          + real (occurrencesOf (globalFreqTable s) w)
            / log 10 (real (TotalOccurrences (localFreqTable s)))))
   \<and> (occurrences (localFreqTable s) w = None \<longrightarrow> Frequency (localFreqTable s) w = Fin 0)
   \<and> (occurrences (globalFreqTable s) w = None \<longrightarrow> Frequency (globalFreqTable s) w = Fin 0)"
proof -
  have pos: "\<And>n. log 10 (real n) = 0 \<Longrightarrow> 2 \<le> n \<Longrightarrow> False"
  proof -
    fix n :: nat
    assume z: "log 10 (real n) = 0" and n: "2 \<le> n"
    from n have "0 < log 10 (real n)" by simp
    with z show False by simp
  qed
  show ?thesis
    by (auto simp: score_def Frequency_def occurrencesOf_def split: option.splits dest: pos)
qed

theorem score_formula_witness:
  "2 \<le> TotalOccurrences (localFreqTable samuraiAbcd)
   \<and> occurrences (localFreqTable samuraiAbcd) ''zz'' = None
   \<and> occurrences (globalFreqTable samuraiAbcd) ''zz'' = None
   \<and> score samuraiAbcd ''zz'' = Fin 0
   \<and> Frequency (localFreqTable samuraiAbcd) ''zz'' = Fin 0
   \<and> Frequency (globalFreqTable samuraiAbcd) ''zz'' = Fin 0"
  using score_formula[of samuraiAbcd "''zz''"]
  by (simp add: samuraiAbcd_def tableAbcd_def emptyTable_def TotalOccurrences_def
      occurrencesOf_def Frequency_def log100)

text \<open>
  C10. For the token \<open>abcd\<close> with base score 1 (its own score), index 1 is the only
  index where both tests hold, so \<open>a\<close>, \<open>bcd\<close> is the two-piece split of maximal sum,
  8. At the later index 2 only the left test holds and the recursion on \<open>cd\<close> yields
  two pieces; the stored candidate is replaced with no comparison of scores, and the
  value returned is \<open>ab\<close>, \<open>c\<close>, \<open>d\<close>.
\<close>

theorem sameCaseSplit_left_only_replaces_candidate:
  "score samuraiAbcd ''abcd'' = Fin 1
   \<and> \<not> isPreffixOrSuffix samuraiAbcd ''abcd'' 1
   \<and> shouldSplitLeft samuraiAbcd (Fin 1) ''abcd'' 1
   \<and> shouldSplitRight samuraiAbcd (Fin 1) ''abcd'' 1
   \<and> fadd (score samuraiAbcd (take 1 ''abcd'')) (score samuraiAbcd (drop 1 ''abcd'')) = Fin 8
   \<and> \<not> shouldSplitLeft samuraiAbcd (Fin 1) ''abcd'' 0
   \<and> \<not> shouldSplitLeft samuraiAbcd (Fin 1) ''abcd'' 3
   \<and> \<not> isPreffixOrSuffix samuraiAbcd ''abcd'' 2
   \<and> shouldSplitLeft samuraiAbcd (Fin 1) ''abcd'' 2
   \<and> \<not> shouldSplitRight samuraiAbcd (Fin 1) ''abcd'' 2
   \<and> sameCaseSplit samuraiAbcd ''cd'' (Fin 1) = Some [''c'', ''d'']
   \<and> sameCaseSplit samuraiAbcd ''abcd'' (Fin 1) = Some [''ab'', ''c'', ''d'']
   \<and> Split samuraiAbcd ''abcd'' = Some [''ab'', ''c'', ''d'']"
proof -
  have hw: "splitOnMarkers (addMarkersOnLowerToUpperCase (addMarkersOnDigits ''abcd'')) = [''abcd'']"
    by (simp add: splitOnMarkers_def marker_def isDigit_def isLetter_def isUpper_def isLower_def)
  have sp: "Split samuraiAbcd ''abcd'' = Some [''ab'', ''c'', ''d'']"
    unfolding Split_sameCaseAll hw by (simp add: sameCaseSplit_def score_Abcd Frequency_def tableAbcd_def abcd_Abcd)
  show ?thesis
    by (simp add: sp sameCaseSplit_def cd_Abcd abcd_Abcd evalAbcd affix_Abcd)
qed

section \<open>GenTest and the Basic expander: lemmas\<close>









lemma bestFrom_first_max:
  assumes "\<forall>c\<in>set pre. highestCohesion c < highestCohesion b"
      and "\<forall>c\<in>set mid. highestCohesion c \<le> highestCohesion b"
  shows "\<exists>pre' post. pre @ b # mid @ cs = pre' @ bestFrom b cs # post
      \<and> (\<forall>c\<in>set pre'. highestCohesion c < highestCohesion (bestFrom b cs))
      \<and> (\<forall>c\<in>set post. highestCohesion c \<le> highestCohesion (bestFrom b cs))"
  using assms
proof (induction cs arbitrary: pre b mid)
  case Nil
  then show ?case by auto
next
  case (Cons c cs)
  show ?case
  proof (cases "highestCohesion b < highestCohesion c")
    case True
    have "\<exists>pre' post. (pre @ b # mid) @ c # [] @ cs = pre' @ bestFrom c cs # post
      \<and> (\<forall>x\<in>set pre'. highestCohesion x < highestCohesion (bestFrom c cs))
      \<and> (\<forall>x\<in>set post. highestCohesion x \<le> highestCohesion (bestFrom c cs))"
      by (rule Cons.IH) (use Cons.prems True in \<open>auto intro: less_trans le_less_trans\<close>)
    then show ?thesis using True by simp
  next
    case False
    have "\<exists>pre' post. pre @ b # (mid @ [c]) @ cs = pre' @ bestFrom b cs # post
      \<and> (\<forall>x\<in>set pre'. highestCohesion x < highestCohesion (bestFrom b cs))
      \<and> (\<forall>x\<in>set post. highestCohesion x \<le> highestCohesion (bestFrom b cs))"
      by (rule Cons.IH) (use Cons.prems False in auto)
    then show ?thesis using False by simp
  qed
qed

lemma splitAt_rejoin:
  "concat (map (\<lambda>p. p @ [sep]) (splitAt sep cur s)) = cur @ s @ [sep]"
  by (induction sep cur s rule: splitAt.induct) auto

lemma splitAt_no_sep:
  "sep \<notin> set cur \<Longrightarrow> p \<in> set (splitAt sep cur s) \<Longrightarrow> sep \<notin> set p"
  by (induction sep cur s arbitrary: p rule: splitAt.induct) (auto split: if_splits)

section \<open>GenTest and the Basic expander: the claims\<close>






text \<open>
  C8. On the empty list \<^verbatim>\<open>findBestSplit\<close> returns the zero value. On a non-empty list
  it returns one of the candidates, no candidate has a higher \<^verbatim>\<open>highestCohesion\<close>, and
  every candidate before it in the list has a strictly lower one: the first candidate
  of maximal cohesion wins.
\<close>

theorem findBestSplit_argmax:
  "findBestSplit [] = \<lparr>split = [], softwords = []\<rparr>
   \<and> (candidates \<noteq> [] \<longrightarrow>
        (\<exists>before after. candidates = before @ findBestSplit candidates # after
           \<and> (\<forall>c\<in>set before. highestCohesion c < highestCohesion (findBestSplit candidates))
           \<and> (\<forall>c\<in>set after. highestCohesion c \<le> highestCohesion (findBestSplit candidates)))
        \<and> (\<forall>c\<in>set candidates. highestCohesion c \<le> highestCohesion (findBestSplit candidates)))"
proof (cases candidates)
  case Nil
  then show ?thesis by (simp add: findBestSplit_def)
next
  case (Cons c cs)
  have "\<exists>pre' post. [] @ c # [] @ cs = pre' @ bestFrom c cs # post
      \<and> (\<forall>x\<in>set pre'. highestCohesion x < highestCohesion (bestFrom c cs))
      \<and> (\<forall>x\<in>set post. highestCohesion x \<le> highestCohesion (bestFrom c cs))"
    by (rule bestFrom_first_max) simp_all
  then obtain before after where d: "c # cs = before @ bestFrom c cs # after"
    "\<forall>x\<in>set before. highestCohesion x < highestCohesion (bestFrom c cs)"
    "\<forall>x\<in>set after. highestCohesion x \<le> highestCohesion (bestFrom c cs)"
    by auto
  have "\<forall>x\<in>set (before @ bestFrom c cs # after).
      highestCohesion x \<le> highestCohesion (bestFrom c cs)"
    using d(2,3) by (auto intro: less_imp_le)
  then have all: "\<forall>x\<in>set (c # cs). highestCohesion x \<le> highestCohesion (bestFrom c cs)"
    by (simp only: d(1)[symmetric])
  have fb: "findBestSplit (c # cs) = bestFrom c cs" by (simp add: findBestSplit_def)
  have nil: "findBestSplit [] = \<lparr>split = [], softwords = []\<rparr>" by (simp add: findBestSplit_def)
  show ?thesis unfolding Cons fb using nil d all by blast
qed

theorem findBestSplit_argmax_witness:
  "[badSplit, bestSplit, notSoBadSplit] \<noteq> []
   \<and> findBestSplit [badSplit, bestSplit, notSoBadSplit] = bestSplit
   \<and> highestCohesion badSplit < highestCohesion bestSplit
   \<and> highestCohesion notSoBadSplit \<le> highestCohesion bestSplit"
proof -
  have hc: "highestCohesion badSplit = 0" "highestCohesion bestSplit = 43443 / 10000"
    "highestCohesion notSoBadSplit = 28443 / 10000"
    by (simp_all add: highestCohesion_def softwordHighestCohesion_def badSplit_def bestSplit_def
        notSoBadSplit_def)
  have best: "findBestSplit [badSplit, bestSplit, notSoBadSplit] = bestSplit"
    by (simp add: findBestSplit_def hc)
  show ?thesis
    using findBestSplit_argmax[of "[badSplit, bestSplit, notSoBadSplit]"] best by (simp add: hc)
qed

text \<open>
  C9 (amended). \<^verbatim>\<open>Expand\<close> folds the token to lower case and never returns an
  error. The three lookups are tried in this order: a token with a non-nil entry in
  the stop list gives the folded token alone; otherwise a token with a non-empty
  phrase gives the parts of the phrase between its hyphens; otherwise a token with a
  non-nil entry in the known words gives the folded token alone; otherwise the result
  is nil.
\<close>

theorem Expand_contract:
  "snd (Expand b t) = None
   \<and> (indexIface (stopList b) (ToLower t) \<noteq> None \<longrightarrow> fst (Expand b t) = Some [ToLower t])
   \<and> (indexIface (stopList b) (ToLower t) = None \<and> indexString (srcPhrases b) (ToLower t) \<noteq> []
        \<longrightarrow> (\<exists>parts. fst (Expand b t) = Some parts
              \<and> concat (map (\<lambda>p. p @ ''-'') parts) = indexString (srcPhrases b) (ToLower t) @ ''-''
              \<and> (\<forall>p\<in>set parts. CHR ''-'' \<notin> set p)))
   \<and> (indexIface (stopList b) (ToLower t) = None \<and> indexString (srcPhrases b) (ToLower t) = []
        \<and> indexIface (srcWords b) (ToLower t) \<noteq> None \<longrightarrow> fst (Expand b t) = Some [ToLower t])
   \<and> (indexIface (stopList b) (ToLower t) = None \<and> indexString (srcPhrases b) (ToLower t) = []
        \<and> indexIface (srcWords b) (ToLower t) = None \<longrightarrow> fst (Expand b t) = None)"
proof -
  have "\<And>s. \<forall>p\<in>set (stringsSplit s (CHR ''-'')). CHR ''-'' \<notin> set p"
    unfolding stringsSplit_def using splitAt_no_sep[of "CHR ''-''" "[]"] by auto
  then show ?thesis
    by (auto simp: Expand_def Let_def stringsSplit_def splitAt_rejoin[of "CHR ''-''" "[]", simplified])
qed

theorem Expand_contract_witness:
  "indexIface (stopList basicDb) (ToLower ''The'') \<noteq> None
   \<and> Expand basicDb ''The'' = (Some [''the''], None)
   \<and> indexIface (stopList basicDb) (ToLower ''DB'') = None
   \<and> indexString (srcPhrases basicDb) (ToLower ''DB'') \<noteq> []
   \<and> Expand basicDb ''DB'' = (Some [''data'', ''base''], None)
   \<and> indexString (srcPhrases basicDb) (ToLower ''Id'') = []
   \<and> indexIface (srcWords basicDb) (ToLower ''Id'') \<noteq> None
   \<and> Expand basicDb ''Id'' = (Some [''id''], None)
   \<and> indexIface (srcWords basicDb) (ToLower ''zz'') = None
   \<and> Expand basicDb ''zz'' = (None, None)"
proof -
  have low: "ToLower ''The'' = ''the''" "ToLower ''DB'' = ''db''" "ToLower ''Id'' = ''id''"
    "ToLower ''zz'' = ''zz''"
    by code_simp+
  show ?thesis
    using Expand_contract[of basicDb "''The''"] Expand_contract[of basicDb "''DB''"]
      Expand_contract[of basicDb "''Id''"] Expand_contract[of basicDb "''zz''"]
    by (simp add: low Expand_def basicDb_def indexIface_def indexString_def stringsSplit_def)
qed

text \<open>
  C9 as stated fails where the lookups overlap: \<open>db\<close> is a known word, and the result
  is not the folded token alone but the parts of its phrase.
\<close>

theorem Expand_contract_counterexample:
  "indexIface (srcWords basicDb) (ToLower ''DB'') \<noteq> None
   \<and> fst (Expand basicDb ''DB'') = Some [''data'', ''base'']
   \<and> fst (Expand basicDb ''DB'') \<noteq> Some [ToLower ''DB'']"
proof -
  have low: "ToLower ''DB'' = ''db''"
    by code_simp
  show ?thesis
    by (simp add: low Expand_def basicDb_def indexIface_def indexString_def stringsSplit_def)
qed

end
